theory Spec2Isabelle
  imports Complex_Main "HOL-Library.Word" "HOL-Library.Signed_Division"
begin

section \<open>Go values\<close>

text \<open>
  Go's \<open>int\<close> is a 64-bit two's complement integer on the platforms the scanner runs on:
  \<open>+\<close> and \<open>-\<close> wrap around, \<open>/\<close> and \<open>%\<close> truncate towards zero and panic on a
  zero divisor. A \<open>float64\<close> is a finite value, given by the real it denotes, an
  infinity or a NaN. The conversion \<open>int(f)\<close> drops the fraction of a finite value that
  fits into an \<open>int\<close>; for every other value Go leaves the result to the implementation,
  and on amd64, where the scanner runs, it is the smallest \<open>int\<close>.
\<close>

type_synonym go_int = "64 word"

datatype float64 = Finite real | PosInf | NegInf | NaN

datatype panic = IndexOutOfRange | DivideByZero | NilDereference | CloseOfClosedChannel

text \<open>
  The error types of \<open>element.go\<close>. \<open>ErrIncorrectElementType\<close> carries \<open>NodeName\<close> and
  \<open>ExpectedName\<close>, \<open>ErrInvalidDimensions\<close> its message. \<open>ErrProtocol\<close> stands for any
  error value handed back by the remote debugger client.
\<close>

datatype error =
    ErrIncorrectElementType string string
  | ErrInvalidElement
  | ErrElementHasNoChildren
  | ErrElementNotReady
  | ErrInvalidDimensions string
  | ErrProtocol string

text \<open>What a Go call comes back with: its value, a non-nil error, or a run-time panic.\<close>

datatype 'a result = Return 'a | Error error | Panic panic

definition go_div :: "go_int \<Rightarrow> go_int \<Rightarrow> go_int" where
  "go_div a b = word_of_int (sint a sdiv sint b)"

definition go_mod :: "go_int \<Rightarrow> go_int \<Rightarrow> go_int" where
  "go_mod a b = word_of_int (sint a smod sint b)"

definition len :: "'a list \<Rightarrow> go_int" where
  "len xs = word_of_nat (length xs)"

definition MinInt64 :: go_int where
  "MinInt64 = - 9223372036854775808"

fun float64_to_int :: "float64 \<Rightarrow> go_int" where
  "float64_to_int (Finite r) =
     (if - 9223372036854775808 \<le> (if r < 0 then - \<lfloor>- r\<rfloor> else \<lfloor>r\<rfloor>) \<and>
         (if r < 0 then - \<lfloor>- r\<rfloor> else \<lfloor>r\<rfloor>) \<le> 9223372036854775807
      then word_of_int (if r < 0 then - \<lfloor>- r\<rfloor> else \<lfloor>r\<rfloor>)
      else MinInt64)"
| "float64_to_int PosInf = MinInt64"
| "float64_to_int NegInf = MinInt64"
| "float64_to_int NaN = MinInt64"

section \<open>centroid\<close>

text \<open>
  The loop \<open>for i := 0; i < pointLen; i = i + 2\<close> reads \<open>points[i]\<close> and \<open>points[i+1]\<close>;
  the second read is out of range when one point is left over.
\<close>

fun centroid_loop :: "float64 list \<Rightarrow> go_int \<Rightarrow> go_int \<Rightarrow> (go_int \<times> go_int) result" where
  "centroid_loop [] x y = Return (x, y)"
| "centroid_loop [px] x y = Panic IndexOutOfRange"
| "centroid_loop (px # py # rest) x y =
     centroid_loop rest (x + float64_to_int px) (y + float64_to_int py)"

definition centroid :: "float64 list \<Rightarrow> (go_int \<times> go_int) result" where
  "centroid points =
     (let pointLen = len points in
      if go_mod pointLen 2 \<noteq> 0
      then Error (ErrInvalidDimensions ''number of points are not divisible by two'')
      else (case centroid_loop points 0 0 of
              Return (x, y) \<Rightarrow>
                if go_div pointLen 2 = 0 then Panic DivideByZero
                else Return (go_div x (go_div pointLen 2), go_div y (go_div pointLen 2))
            | Error err \<Rightarrow> Error err
            | Panic p \<Rightarrow> Panic p))"

section \<open>The debugger's DOM node\<close>

text \<open>
  \<open>gcdapi.DOMNode\<close> belongs to the debugger client library; the fields the Element reads
  are kept. Pointers are options (\<open>None\<close> is \<open>nil\<close>), and \<open>Children\<close> is a slice of
  node pointers that may itself be \<open>nil\<close>. \<open>Attributes\<close> is the flat array
  \<open>[name1, value1, name2, value2, ...]\<close>.
\<close>

datatype DOMNode = DOMNode
  (NodeId: go_int)
  (NodeType: go_int)
  (NodeName: string)
  (NodeValue: string)
  (ChildNodeCount: go_int)
  (Children: "DOMNode option list option")
  (Attributes: "string list")
  (FrameId: string)
  (ContentDocument: "DOMNode option")

definition set_Children :: "DOMNode option list option \<Rightarrow> DOMNode \<Rightarrow> DOMNode" where
  "set_Children cs n =
     DOMNode (NodeId n) (NodeType n) (NodeName n) (NodeValue n) (ChildNodeCount n) cs
       (Attributes n) (FrameId n) (ContentDocument n)"

definition NodeText :: go_int where
  "NodeText = 0x3"


text \<open>
  \<open>strings.ToLower\<close> belongs to Go's standard library: \<open>populateElement\<close> and
  \<open>newReadyElement\<close> take it as the argument \<open>toLower\<close>, and what is proved of them holds
  for every such function. On a string of ASCII bytes \<open>strings.ToLower\<close> lowers the
  letters \<open>A\<close> to \<open>Z\<close> and leaves every other byte; \<open>ToLower_ascii\<close> is that function
  and stands for it at concrete ASCII node names only.
\<close>

definition to_lower_char :: "char \<Rightarrow> char" where
  "to_lower_char c =
     (if 65 \<le> (of_char c :: nat) \<and> (of_char c :: nat) \<le> 90
      then char_of (of_char c + 32 :: nat) else c)"

definition ToLower_ascii :: "string \<Rightarrow> string" where
  "ToLower_ascii s = map to_lower_char s"

section \<open>Element\<close>

text \<open>
  The struct of \<open>element.go\<close>. \<open>readyGate\<close> is a channel that carries no values: all that
  matters is whether it has been closed. The mutex and the tab pointer are not state of
  their own here: what an operation does with them is recorded in its trace.
\<close>

datatype gate = GateOpen | GateClosed

record Element =
  attributes :: "string \<rightharpoonup> string"
  nodeName :: string
  characterData :: string
  childNodeCount :: go_int
  nodeType :: go_int
  depth :: go_int
  node :: "DOMNode option"
  readyGate :: gate
  ID :: go_int
  ready :: bool
  invalidated :: bool

text \<open>
  Commands sent to the browser through \<open>e.tab.t\<close>, the three cases of the \<open>select\<close> in
  \<open>WaitForReady\<close>, and the events an operation performs in program order: taking and
  releasing the read or write lock, closing the ready gate, blocking in the \<open>select\<close>
  until the given case fires, and issuing a remote command.
\<close>

datatype remote_cmd =
    DOM_GetOuterHTML go_int
  | DOM_ResolveNode go_int
  | DOMDebugger_GetEventListeners string
  | CSS_GetInlineStylesForNode go_int
  | CSS_GetComputedStyleForNode go_int
  | DOM_GetAttributes go_int
  | DOM_SetAttributeValue go_int string string
  | DOM_SetNodeValue go_int string
  | DOM_Focus go_int
  | DOM_ScrollIntoViewIfNeeded go_int
  | DOM_GetBoxModel go_int

datatype select_case = GateReleased | TimeoutElapsed | ExitSignalled

datatype event =
    RLock | RUnlock | Lock | Unlock
  | CloseGate
  | Select select_case
  | Remote remote_cmd

text \<open>The reply of a remote command: the client's error or the value.\<close>

type_synonym 'a reply = "error + 'a"

definition from_reply :: "'a reply \<Rightarrow> 'a result" where
  "from_reply r = (case r of Inl err \<Rightarrow> Error err | Inr v \<Rightarrow> Return v)"

definition newElement :: "go_int \<Rightarrow> go_int \<Rightarrow> Element" where
  "newElement nodeID d =
     \<lparr> attributes = Map.empty, nodeName = [], characterData = [], childNodeCount = 0,
       nodeType = 0, depth = d, node = None, readyGate = GateOpen, ID = nodeID,
       ready = False, invalidated = False \<rparr>"

definition updateAttribute :: "string \<Rightarrow> string \<Rightarrow> Element \<Rightarrow> event list \<times> Element" where
  "updateAttribute name v e = ([Lock, Unlock], e\<lparr>attributes := (attributes e)(name \<mapsto> v)\<rparr>)"

text \<open>
  The loop \<open>for i := 0; i < len(attr); i += 2 { e.updateAttribute(attr[i], attr[i+1]) }\<close>
  of \<open>populateElement\<close> and \<open>GetAttributes\<close>. It answers with the trace, the panic that
  stopped it (if any) and the Element as it stands then.
\<close>

fun attribute_loop :: "string list \<Rightarrow> Element \<Rightarrow> event list \<times> panic option \<times> Element" where
  "attribute_loop [] e = ([], None, e)"
| "attribute_loop [name] e = ([], Some IndexOutOfRange, e)"
| "attribute_loop (name # v # rest) e =
     (case updateAttribute name v e of (t, e') \<Rightarrow>
        (case attribute_loop rest e' of (t', p, e'') \<Rightarrow> (t @ t', p, e'')))"

text \<open>
  \<open>populateElement\<close>: the fields under the write lock, the attributes one
  \<open>updateAttribute\<close> at a time, then \<open>if !e.ready { close(e.readyGate) }\<close> and
  \<open>e.ready = true\<close> under the lock again. Closing a closed channel panics in Go.
\<close>

definition populateElement ::
  "(string \<Rightarrow> string) \<Rightarrow> DOMNode \<Rightarrow> go_int \<Rightarrow> Element \<Rightarrow>
     event list \<times> panic option \<times> Element" where
  "populateElement toLower n d e =
     (let e1 = e\<lparr> node := Some n, ID := NodeId n, depth := d, nodeType := NodeType n,
                  nodeName := toLower (NodeName n), childNodeCount := ChildNodeCount n,
                  characterData := (if NodeType n = NodeText then NodeValue n
                                    else characterData e) \<rparr>
      in case attribute_loop (Attributes n) e1 of
           (t, Some p, e2) \<Rightarrow> ([Lock, Unlock] @ t, Some p, e2)
         | (t, None, e2) \<Rightarrow>
             if \<not> ready e2 then
               (case readyGate e2 of
                  GateClosed \<Rightarrow> ([Lock, Unlock] @ t @ [CloseGate], Some CloseOfClosedChannel, e2)
                | GateOpen \<Rightarrow>
                    ([Lock, Unlock] @ t @ [CloseGate, Lock, Unlock], None,
                     e2\<lparr>readyGate := GateClosed, ready := True\<rparr>))
             else ([Lock, Unlock] @ t @ [Lock, Unlock], None, e2\<lparr>ready := True\<rparr>))"

definition newReadyElement ::
  "(string \<Rightarrow> string) \<Rightarrow> DOMNode \<Rightarrow> go_int \<Rightarrow> event list \<times> panic option \<times> Element" where
  "newReadyElement toLower n d =
     populateElement toLower n d
       \<lparr> attributes = Map.empty, nodeName = toLower (NodeName n), characterData = [],
         childNodeCount = 0, nodeType = 0, depth = 0, node = None, readyGate = GateOpen,
         ID = 0, ready = False, invalidated = False \<rparr>"

text \<open>A sequence of \<open>populateElement\<close> calls on one Element; a panic ends the run.\<close>

fun populate_all ::
  "(string \<Rightarrow> string) \<Rightarrow> (DOMNode \<times> go_int) list \<Rightarrow> Element \<Rightarrow>
     event list \<times> panic option \<times> Element" where
  "populate_all toLower [] e = ([], None, e)"
| "populate_all toLower ((n, d) # calls) e =
     (case populateElement toLower n d e of
        (t, Some p, e') \<Rightarrow> (t, Some p, e')
      | (t, None, e') \<Rightarrow>
          (case populate_all toLower calls e' of (t', p, e'') \<Rightarrow> (t @ t', p, e'')))"


definition setInvalidated :: "bool \<Rightarrow> Element \<Rightarrow> event list \<times> Element" where
  "setInvalidated invalid e = ([Lock, Unlock], e\<lparr>invalidated := invalid\<rparr>)"

text \<open>
  \<open>WaitForReady\<close> reads \<open>e.ready\<close> under the read lock and returns \<open>nil\<close> when it is set.
  Otherwise it starts the timer and blocks in the \<open>select\<close>; the argument is the case
  that fires first.
\<close>

definition WaitForReady :: "Element \<Rightarrow> select_case \<Rightarrow> event list \<times> unit result" where
  "WaitForReady e fired =
     (if ready e then ([RLock, RUnlock], Return ())
      else (case fired of
              GateReleased \<Rightarrow> ([RLock, RUnlock, Select GateReleased], Return ())
            | TimeoutElapsed \<Rightarrow> ([RLock, RUnlock, Select TimeoutElapsed], Error ErrElementNotReady)
            | ExitSignalled \<Rightarrow> ([RLock, RUnlock, Select ExitSignalled], Error ErrElementNotReady)))"

section \<open>Queries\<close>

text \<open>
  Each query answers with its trace and its result. A query that talks to the browser
  takes the browser's reply as an argument; the reply is looked at only on the paths
  where the command is issued.
\<close>

definition GetSource :: "Element \<Rightarrow> string reply \<Rightarrow> event list \<times> string result" where
  "GetSource e outerHTML =
     (if invalidated e then ([RLock, RUnlock], Error ErrInvalidElement)
      else ([RLock, RUnlock, Remote (DOM_GetOuterHTML (ID e))], from_reply outerHTML))"




text \<open>
  \<open>GetEventListeners\<close> resolves the node to a remote object id and asks the DOM debugger
  for the listeners bound to it.
\<close>

definition GetEventListeners ::
  "Element \<Rightarrow> string reply \<Rightarrow> 'l list reply \<Rightarrow> event list \<times> 'l list result" where
  "GetEventListeners e resolved listeners =
     (case resolved of
        Inl err \<Rightarrow> ([RLock, RUnlock, Remote (DOM_ResolveNode (ID e))], Error err)
      | Inr objectId \<Rightarrow>
          ([RLock, RUnlock, Remote (DOM_ResolveNode (ID e)),
            Remote (DOMDebugger_GetEventListeners objectId)], from_reply listeners))"






text \<open>
  The two style pointers of \<open>GetInlineStylesForNode\<close> may be \<open>nil\<close>; reading \<open>CssText\<close>
  through a \<open>nil\<close> pointer panics. A style is given by its \<open>CssText\<close>.
\<close>

definition GetCSSInlineStyleText ::
  "Element \<Rightarrow> (string option \<times> string option) reply \<Rightarrow> event list \<times> (string \<times> string) result" where
  "GetCSSInlineStyleText e styles =
     (case styles of
        Inl err \<Rightarrow> ([RLock, Remote (CSS_GetInlineStylesForNode (ID e)), RUnlock], Error err)
      | Inr (Some inline, Some attribute) \<Rightarrow>
          ([RLock, Remote (CSS_GetInlineStylesForNode (ID e)), RUnlock],
           Return (inline, attribute))
      | Inr _ \<Rightarrow>
          ([RLock, Remote (CSS_GetInlineStylesForNode (ID e)), RUnlock], Panic NilDereference))"

fun style_map :: "(string \<times> string) list \<Rightarrow> (string \<rightharpoonup> string) \<Rightarrow> (string \<rightharpoonup> string)" where
  "style_map [] m = m"
| "style_map ((name, v) # styles) m = style_map styles (m(name \<mapsto> v))"

definition GetComputedCSSStyle ::
  "Element \<Rightarrow> (string \<times> string) list reply \<Rightarrow> event list \<times> (string \<rightharpoonup> string) result" where
  "GetComputedCSSStyle e styles =
     (case styles of
        Inl err \<Rightarrow> ([RLock, Remote (CSS_GetComputedStyleForNode (ID e)), RUnlock], Error err)
      | Inr computed \<Rightarrow>
          ([RLock, Remote (CSS_GetComputedStyleForNode (ID e)), RUnlock],
           Return (style_map computed Map.empty)))"

text \<open>
  \<open>GetAttributes\<close> fetches the flat attribute array, stores every pair with
  \<open>updateAttribute\<close> and returns the Element's own map. It changes the Element, so it
  answers with the Element as well.
\<close>

definition GetAttributes ::
  "Element \<Rightarrow> string list reply \<Rightarrow> event list \<times> (string \<rightharpoonup> string) result \<times> Element" where
  "GetAttributes e fetched =
     (case fetched of
        Inl err \<Rightarrow> ([RLock, Remote (DOM_GetAttributes (ID e)), RUnlock], Error err, e)
      | Inr attr \<Rightarrow>
          (case attribute_loop attr e of
             (t, Some p, e') \<Rightarrow>
               ([RLock, Remote (DOM_GetAttributes (ID e)), RUnlock] @ t, Panic p, e')
           | (t, None, e') \<Rightarrow>
               ([RLock, Remote (DOM_GetAttributes (ID e)), RUnlock] @ t,
                Return (attributes e'), e')))"

text \<open>
  \<open>GetAttribute\<close> and \<open>HasAttribute\<close> have no error result: only a value or a panic can
  come back. Reading a missing key of a Go map gives the empty string.
\<close>

definition GetAttribute ::
  "Element \<Rightarrow> string \<Rightarrow> string list reply \<Rightarrow> event list \<times> string result \<times> Element" where
  "GetAttribute e name fetched =
     (case GetAttributes e fetched of
        (t, Error err, e') \<Rightarrow> (t, Return [], e')
      | (t, Panic p, e') \<Rightarrow> (t, Panic p, e')
      | (t, Return attr, e') \<Rightarrow>
          (t, Return (case attr name of None \<Rightarrow> [] | Some v \<Rightarrow> v), e'))"

definition HasAttribute ::
  "Element \<Rightarrow> string \<Rightarrow> string list reply \<Rightarrow> event list \<times> bool result \<times> Element" where
  "HasAttribute e name fetched =
     (case GetAttributes e fetched of
        (t, Error err, e') \<Rightarrow> (t, Return False, e')
      | (t, Panic p, e') \<Rightarrow> (t, Panic p, e')
      | (t, Return attr, e') \<Rightarrow> (t, Return (attr name \<noteq> None), e'))"

definition Dimensions :: "Element \<Rightarrow> float64 list reply \<Rightarrow> event list \<times> float64 list result" where
  "Dimensions e box =
     (case box of
        Inl err \<Rightarrow> ([RLock, Remote (DOM_GetBoxModel (ID e)), RUnlock], Error err)
      | Inr content \<Rightarrow> ([RLock, Remote (DOM_GetBoxModel (ID e)), RUnlock], Return content))"

definition getCenter :: "Element \<Rightarrow> float64 list reply \<Rightarrow> event list \<times> (go_int \<times> go_int) result" where
  "getCenter e box =
     (case Dimensions e box of
        (t, Error err) \<Rightarrow> (t, Error err)
      | (t, Panic p) \<Rightarrow> (t, Panic p)
      | (t, Return points) \<Rightarrow> (t, centroid points))"

section \<open>Actions and change events\<close>

definition SetAttributeValue ::
  "Element \<Rightarrow> string \<Rightarrow> string \<Rightarrow> unit reply \<Rightarrow> event list \<times> unit result \<times> Element" where
  "SetAttributeValue e name v reply =
     (case reply of
        Inl err \<Rightarrow> ([Lock, Remote (DOM_SetAttributeValue (ID e) name v), Unlock], Error err, e)
      | Inr _ \<Rightarrow>
          ([Lock, Remote (DOM_SetAttributeValue (ID e) name v), Unlock], Return (),
           e\<lparr>attributes := (attributes e)(name \<mapsto> v)\<rparr>))"

definition Clear :: "Element \<Rightarrow> unit reply \<Rightarrow> event list \<times> unit result" where
  "Clear e reply =
     (if \<not> ready e then ([RLock, RUnlock], Error ErrElementNotReady)
      else if nodeName e = ''textarea''
      then ([RLock, Remote (DOM_SetNodeValue (ID e) []), RUnlock], from_reply reply)
      else if nodeName e = ''input''
      then ([RLock, Remote (DOM_SetAttributeValue (ID e) ''value'' []), RUnlock], from_reply reply)
      else ([RLock, RUnlock],
            Error (ErrIncorrectElementType (nodeName e) ''textarea or input'')))"

definition Focus :: "Element \<Rightarrow> unit reply \<Rightarrow> event list \<times> unit result" where
  "Focus e reply = ([RLock, Remote (DOM_Focus (ID e)), RUnlock], from_reply reply)"

definition ScrollTo :: "Element \<Rightarrow> unit reply \<Rightarrow> event list \<times> unit result" where
  "ScrollTo e reply =
     ([RLock, Remote (DOM_ScrollIntoViewIfNeeded (ID e)), RUnlock], from_reply reply)"

definition removeAttribute :: "string \<Rightarrow> Element \<Rightarrow> event list \<times> Element" where
  "removeAttribute name e = ([Lock, Unlock], e\<lparr>attributes := (attributes e)(name := None)\<rparr>)"

definition updateCharacterData :: "string \<Rightarrow> Element \<Rightarrow> event list \<times> Element" where
  "updateCharacterData newValue e = ([Lock, Unlock], e\<lparr>characterData := newValue\<rparr>)"

definition updateChildNodeCount :: "go_int \<Rightarrow> Element \<Rightarrow> event list \<times> Element" where
  "updateChildNodeCount newValue e = ([Lock, Unlock], e\<lparr>childNodeCount := newValue\<rparr>)"

definition addChild :: "DOMNode \<Rightarrow> Element \<Rightarrow> event list \<times> Element" where
  "addChild child e =
     (case node e of
        None \<Rightarrow> ([Lock, Unlock], e)
      | Some n \<Rightarrow>
          ([Lock, Unlock],
           e\<lparr> node := Some (set_Children
                             (Some ((case Children n of None \<Rightarrow> [] | Some cs \<Rightarrow> cs) @ [Some child])) n),
              childNodeCount := childNodeCount e + 1 \<rparr>))"

text \<open>
  The \<open>range\<close> loop of \<open>removeChild\<close>: the index of the first child that is not \<open>nil\<close>
  and carries the removed node id, if there is one.
\<close>

fun find_child :: "go_int \<Rightarrow> DOMNode option list \<Rightarrow> nat option" where
  "find_child removedNodeID [] = None"
| "find_child removedNodeID (child # children) =
     (if child \<noteq> None \<and> NodeId (the child) = removedNodeID then Some 0
      else map_option Suc (find_child removedNodeID children))"

text \<open>
  \<open>removeChild\<close> returns at once when the node or its child slice is \<open>nil\<close>. At the first
  match it splices the slice with
  \<open>append(e.node.Children[:idx], e.node.Children[idx+1:]...)\<close>, lowers the counter and
  leaves the loop.
\<close>

definition removeChild :: "go_int \<Rightarrow> Element \<Rightarrow> event list \<times> Element" where
  "removeChild removedNodeID e =
     (case node e of
        None \<Rightarrow> ([Lock, Unlock], e)
      | Some n \<Rightarrow>
          (case Children n of
             None \<Rightarrow> ([Lock, Unlock], e)
           | Some children \<Rightarrow>
               (case find_child removedNodeID children of
                  None \<Rightarrow> ([Lock, Unlock], e)
                | Some idx \<Rightarrow>
                    ([Lock, Unlock],
                     e\<lparr> node := Some (set_Children
                                       (Some (take idx children @ drop (idx + 1) children)) n),
                        childNodeCount := childNodeCount e - 1 \<rparr>))))"

section \<open>The scan engine\<close>

text \<open>
  \<open>browserk.Config\<close> as the command line fills it in; \<open>NumBrowsers\<close> is the field the
  engine reads.
\<close>

record Config =
  URL :: string
  DataPath :: string
  NumBrowsers :: go_int

text \<open>
  Modelled from the spec: the navigation states \<open>browserk.NavUnvisited\<close> and
  \<open>browserk.NavInProcess\<close> are declared outside the files at hand; the data model names
  the four discovery states of a navigation.
\<close>

datatype NavState = NavUnvisited | NavInProcess | NavVisited | NavFailed

text \<open>
  Modelled from the spec: the browser pool (\<open>browser.BrowserPool\<close>, built by
  \<open>browser.NewGCDBrowserPool\<close>) is declared outside the files at hand. The pool is
  described by its configured size, the number of leases handed out and not yet
  returned, and whether its resources have been released; the spare lease capacity is
  the number of leases that are idle.
\<close>

record BrowserPool =
  maxBrowsers :: go_int
  leased :: go_int
  released :: bool

definition idle_leases :: "BrowserPool \<Rightarrow> go_int" where
  "idle_leases p = maxBrowsers p - leased p"

text \<open>
  A \<open>context.Context\<close> is seen through its \<open>Done\<close> channel only. The engine keeps the
  configuration, the pool, the scan context and the state monitor's ticker; the last
  three are \<open>nil\<close> until \<open>Init\<close> has run. The graphs and the reporter are collaborators
  that the engine calls and that hold no state of its own.
\<close>

record Context =
  Done :: bool

record Browserk =
  cfg :: Config
  browsers :: "BrowserPool option"
  scanContext :: "Context option"
  stateMonitor :: bool

definition New :: "Config \<Rightarrow> Browserk" where
  "New c = \<lparr> cfg = c, browsers = None, scanContext = None, stateMonitor = False \<rparr>"

text \<open>
  \<open>Init\<close> stores the context, initialises the attack graph and the crawl graph (either
  may fail, which ends \<open>Init\<close>), creates the ticker and the pool, and returns what the
  pool's own \<open>Init\<close> returns.
\<close>

definition Init ::
  "Browserk \<Rightarrow> Context \<Rightarrow> error option \<Rightarrow> error option \<Rightarrow> error option \<Rightarrow> error option \<times> Browserk" where
  "Init b ctx attackInit crawlInit poolInit =
     (let b1 = b\<lparr>scanContext := Some ctx\<rparr> in
      case attackInit of
        Some err \<Rightarrow> (Some err, b1)
      | None \<Rightarrow>
          (case crawlInit of
             Some err \<Rightarrow> (Some err, b1)
           | None \<Rightarrow>
               (poolInit,
                b1\<lparr> stateMonitor := True,
                    browsers := Some \<lparr> maxBrowsers = NumBrowsers (cfg b), leased = 0,
                                       released = False \<rparr> \<rparr>)))"

text \<open>
  One turn of the \<open>for { select { ... } }\<close> of \<open>Start\<close> takes the case whose channel is
  ready, or \<open>default\<close> when neither is. What the engine does to the outside is a log line
  or a call of the crawl graph's \<open>Find\<close> with its two states and its limit.
\<close>

datatype start_case = ContextDone | MonitorTick | NothingReady

datatype start_event = LogMsg string | Find NavState NavState go_int

text \<open>
  The loop runs over the cases taken, turn by turn. It ends with \<open>return nil\<close> when the
  context is done; \<open>None\<close> says that the loop is still running when the cases given are
  used up.
\<close>

fun Start_loop :: "Browserk \<Rightarrow> start_case list \<Rightarrow> start_event list \<times> unit result option" where
  "Start_loop b [] = ([], None)"
| "Start_loop b (ContextDone # turns) =
     ([LogMsg ''scan finished due to context complete''], Some (Return ()))"
| "Start_loop b (MonitorTick # turns) =
     (case Start_loop b turns of (t, r) \<Rightarrow> (LogMsg ''state monitor ping'' # t, r))"
| "Start_loop b (NothingReady # turns) =
     (case Start_loop b turns of (t, r) \<Rightarrow>
        (Find NavUnvisited NavInProcess (NumBrowsers (cfg b)) # t, r))"

text \<open>Before \<open>Init\<close> the context and the ticker are \<open>nil\<close>, and the \<open>select\<close> panics.\<close>

definition Start :: "Browserk \<Rightarrow> start_case list \<Rightarrow> start_event list \<times> unit result option" where
  "Start b turns =
     (if scanContext b = None \<or> \<not> stateMonitor b then ([], Some (Panic NilDereference))
      else Start_loop b turns)"

fun find_limits :: "start_event list \<Rightarrow> go_int list" where
  "find_limits [] = []"
| "find_limits (Find from to limit # t) = limit # find_limits t"
| "find_limits (LogMsg m # t) = find_limits t"

text \<open>\<open>Stop\<close> is \<open>return nil\<close>: no field of the engine is read or written.\<close>

definition Stop :: "Browserk \<Rightarrow> error option \<times> Browserk" where
  "Stop b = (None, b)"

section \<open>Reading traces\<close>

text \<open>
  \<open>remote_outside_lock held t\<close>: with \<open>held\<close> locks taken so far, no remote command in
  \<open>t\<close> is issued while a lock of the Element is held.
\<close>

fun remote_outside_lock :: "nat \<Rightarrow> event list \<Rightarrow> bool" where
  "remote_outside_lock held [] = True"
| "remote_outside_lock held (RLock # t) = remote_outside_lock (Suc held) t"
| "remote_outside_lock held (Lock # t) = remote_outside_lock (Suc held) t"
| "remote_outside_lock held (RUnlock # t) = remote_outside_lock (held - 1) t"
| "remote_outside_lock held (Unlock # t) = remote_outside_lock (held - 1) t"
| "remote_outside_lock held (Remote c # t) = (held = 0 \<and> remote_outside_lock held t)"
| "remote_outside_lock held (CloseGate # t) = remote_outside_lock held t"
| "remote_outside_lock held (Select c # t) = remote_outside_lock held t"

text \<open>An operation is local when its trace has no remote command and no blocking \<open>select\<close>.\<close>

fun is_local :: "event list \<Rightarrow> bool" where
  "is_local [] = True"
| "is_local (Remote c # t) = False"
| "is_local (Select c # t) = False"
| "is_local (ev # t) = is_local t"

text \<open>The name and value pairs of a flat attribute array.\<close>

fun pairs_of :: "string list \<Rightarrow> (string \<times> string) list" where
  "pairs_of (name # v # rest) = (name, v) # pairs_of rest"
| "pairs_of rest = []"

section \<open>Arithmetic facts\<close>

lemma smod_two_eq_zero_iff: "(k::int) smod 2 = 0 \<longleftrightarrow> even k"
  by (auto simp: signed_modulo_int_def sgn_if abs_if split: if_splits)

lemma smod_two_cases: "(k::int) smod 2 \<in> {- 1, 0, 1}"
  by (auto simp: signed_modulo_int_def sgn_if abs_if split: if_splits)

lemma even_sint_go_int: "even (sint (w :: go_int)) \<longleftrightarrow> even w"
  using bit_sint_iff [of w 0] by (simp add: bit_0)

lemma go_mod_two_eq_zero_iff: "go_mod w 2 = 0 \<longleftrightarrow> even w"
proof -
  have "sint w smod 2 = 0 \<or> sint w smod 2 = 1 \<or> sint w smod 2 = - 1"
    using smod_two_cases [of "sint w"] by auto
  then have "(2 ^ 64 dvd (sint w smod 2)) \<longleftrightarrow> sint w smod 2 = 0"
    by auto
  then show ?thesis
    by (simp add: go_mod_def word_of_int_eq_0_iff smod_two_eq_zero_iff even_sint_go_int)
qed

lemma even_len_iff: "even (len xs) \<longleftrightarrow> even (length xs)"
  unfolding len_def by simp

section \<open>Facts about the Element\<close>

lemma attribute_loop_even:
  "even (length as) \<Longrightarrow>
   attribute_loop as e =
     (concat (replicate (length as div 2) [Lock, Unlock]), None,
      e\<lparr>attributes := attributes e ++ map_of (rev (pairs_of as))\<rparr>)"
proof (induction as e rule: attribute_loop.induct)
  case (1 e)
  then show ?case by simp
next
  case (2 name e)
  then show ?case by simp
next
  case (3 name v rest e)
  have shift: "(attributes e)(name \<mapsto> v) ++ map_of (rev (pairs_of rest)) =
      attributes e ++ map_of (rev (pairs_of (name # v # rest)))"
    by (rule ext) (simp add: map_add_def split: option.splits)
  from 3 have "attribute_loop rest (e\<lparr>attributes := (attributes e)(name \<mapsto> v)\<rparr>) =
     (concat (replicate (length rest div 2) [Lock, Unlock]), None,
      e\<lparr>attributes := (attributes e)(name \<mapsto> v) ++ map_of (rev (pairs_of rest))\<rparr>)"
    by (simp add: updateAttribute_def del: fun_upd_apply)
  then show ?case
    unfolding shift by (simp add: updateAttribute_def del: fun_upd_apply)
qed

lemma count_list_lock_pairs [simp]:
  "count_list (concat (replicate k [Lock, Unlock])) CloseGate = 0"
  by (induction k) simp_all

lemma populateElement_first:
  assumes "even (length (Attributes n))" "\<not> ready e" "readyGate e = GateOpen"
  shows "populateElement toLower n d e =
     ([Lock, Unlock] @ concat (replicate (length (Attributes n) div 2) [Lock, Unlock])
        @ [CloseGate, Lock, Unlock], None,
      e\<lparr> node := Some n, ID := NodeId n, depth := d, nodeType := NodeType n,
         nodeName := toLower (NodeName n), childNodeCount := ChildNodeCount n,
         characterData := (if NodeType n = NodeText then NodeValue n else characterData e),
         attributes := attributes e ++ map_of (rev (pairs_of (Attributes n))),
         readyGate := GateClosed, ready := True \<rparr>)"
  using assms by (simp add: populateElement_def Let_def attribute_loop_even)

lemma populateElement_later:
  assumes "even (length (Attributes n))" "ready e"
  shows "populateElement toLower n d e =
     ([Lock, Unlock] @ concat (replicate (length (Attributes n) div 2) [Lock, Unlock])
        @ [Lock, Unlock], None,
      e\<lparr> node := Some n, ID := NodeId n, depth := d, nodeType := NodeType n,
         nodeName := toLower (NodeName n), childNodeCount := ChildNodeCount n,
         characterData := (if NodeType n = NodeText then NodeValue n else characterData e),
         attributes := attributes e ++ map_of (rev (pairs_of (Attributes n))) \<rparr>)"
  using assms by (simp add: populateElement_def Let_def attribute_loop_even)

lemma populate_all_later:
  assumes "\<forall>c \<in> set calls. even (length (Attributes (fst c)))" "ready e"
  shows "\<exists>t e'. populate_all toLower calls e = (t, None, e') \<and> count_list t CloseGate = 0 \<and>
           ready e' \<and> readyGate e' = readyGate e \<and>
           (\<forall>n d. calls \<noteq> [] \<and> last calls = (n, d) \<longrightarrow>
              node e' = Some n \<and> ID e' = NodeId n \<and> depth e' = d \<and> nodeType e' = NodeType n \<and>
              nodeName e' = toLower (NodeName n) \<and> childNodeCount e' = ChildNodeCount n \<and>
              (NodeType n = NodeText \<longrightarrow> characterData e' = NodeValue n) \<and>
              (\<forall>k v. map_of (rev (pairs_of (Attributes n))) k = Some v \<longrightarrow>
                 attributes e' k = Some v))"
  using assms
proof (induction calls arbitrary: e)
  case Nil
  then show ?case by simp
next
  case (Cons c calls)
  obtain n d where c: "c = (n, d)" by (cases c)
  from Cons.prems c have ev: "even (length (Attributes n))" by simp
  let ?e1 = "e\<lparr> node := Some n, ID := NodeId n, depth := d, nodeType := NodeType n,
         nodeName := toLower (NodeName n), childNodeCount := ChildNodeCount n,
         characterData := (if NodeType n = NodeText then NodeValue n else characterData e),
         attributes := attributes e ++ map_of (rev (pairs_of (Attributes n))) \<rparr>"
  let ?t1 = "[Lock, Unlock] @ concat (replicate (length (Attributes n) div 2) [Lock, Unlock])
        @ [Lock, Unlock]"
  have step: "populateElement toLower n d e = (?t1, None, ?e1)"
    using populateElement_later [OF ev \<open>ready e\<close>] .
  have r1: "ready ?e1" using \<open>ready e\<close> by simp
  from Cons.IH [of ?e1] Cons.prems r1
  obtain t e' where rest: "populate_all toLower calls ?e1 = (t, None, e')"
    and cnt: "count_list t CloseGate = 0" and rdy: "ready e'"
    and gt: "readyGate e' = readyGate ?e1"
    and fields: "\<forall>n d. calls \<noteq> [] \<and> last calls = (n, d) \<longrightarrow>
              node e' = Some n \<and> ID e' = NodeId n \<and> depth e' = d \<and> nodeType e' = NodeType n \<and>
              nodeName e' = toLower (NodeName n) \<and> childNodeCount e' = ChildNodeCount n \<and>
              (NodeType n = NodeText \<longrightarrow> characterData e' = NodeValue n) \<and>
              (\<forall>k v. map_of (rev (pairs_of (Attributes n))) k = Some v \<longrightarrow>
                 attributes e' k = Some v)"
    by auto
  have all: "populate_all toLower (c # calls) e = (?t1 @ t, None, e')"
    by (simp add: c step rest)
  have cnt': "count_list (?t1 @ t) CloseGate = 0"
    using cnt by simp
  show ?case
  proof (cases "calls = []")
    case True
    with rest have "e' = ?e1" by simp
    then show ?thesis
      using all cnt' rdy gt True c by (auto simp: map_add_def)
  next
    case False
    then show ?thesis
      using all cnt' rdy gt fields by auto
  qed
qed

lemma set_Children_selectors:
  "Children (set_Children cs n) = cs"
  "NodeId (set_Children cs n) = NodeId n"
  "NodeType (set_Children cs n) = NodeType n"
  "NodeName (set_Children cs n) = NodeName n"
  "NodeValue (set_Children cs n) = NodeValue n"
  "ChildNodeCount (set_Children cs n) = ChildNodeCount n"
  "Attributes (set_Children cs n) = Attributes n"
  "FrameId (set_Children cs n) = FrameId n"
  "ContentDocument (set_Children cs n) = ContentDocument n"
  by (simp_all add: set_Children_def)

lemma find_child_Some:
  "find_child rid cs = Some idx \<Longrightarrow>
     idx < length cs \<and> (\<exists>child. cs ! idx = Some child \<and> NodeId child = rid) \<and>
     (\<forall>j<idx. \<forall>c. cs ! j = Some c \<longrightarrow> NodeId c \<noteq> rid)"
proof (induction cs arbitrary: idx)
  case Nil
  then show ?case by simp
next
  case (Cons c cs)
  show ?case
  proof (cases "c \<noteq> None \<and> NodeId (the c) = rid")
    case True
    with Cons.prems have "idx = 0" by simp
    with True show ?thesis by auto
  next
    case False
    with Cons.prems obtain i where i: "find_child rid cs = Some i" "idx = Suc i"
      by auto
    from Cons.IH [OF i(1)] have ih: "i < length cs"
      "\<exists>child. cs ! i = Some child \<and> NodeId child = rid"
      "\<forall>j<i. \<forall>c. cs ! j = Some c \<longrightarrow> NodeId c \<noteq> rid" by auto
    have "\<forall>j<Suc i. \<forall>c'. (c # cs) ! j = Some c' \<longrightarrow> NodeId c' \<noteq> rid"
    proof (intro allI impI)
      fix j c' assume j: "j < Suc i" and c': "(c # cs) ! j = Some c'"
      show "NodeId c' \<noteq> rid"
      proof (cases j)
        case 0
        with c' False show ?thesis by auto
      next
        case (Suc k)
        with j c' ih(3) show ?thesis by auto
      qed
    qed
    with ih i show ?thesis by simp
  qed
qed

lemma find_child_None:
  "find_child rid cs = None \<longleftrightarrow> \<not> (\<exists>c \<in> set cs. c \<noteq> None \<and> NodeId (the c) = rid)"
  by (induction cs) auto

lemma populateElement_sets_ready:
  "populateElement toLower n d e = (t, None, e') \<Longrightarrow> ready e'"
  by (auto simp: populateElement_def Let_def split: prod.splits option.splits if_splits gate.splits)

lemma populate_sequence_well_formed:
  assumes wf: "\<forall>c \<in> set (c0 # calls). even (length (Attributes (fst c)))"
    and fresh: "\<not> ready e" "readyGate e = GateOpen"
  shows "\<exists>t1 e1 t2 e2.
      populateElement toLower (fst c0) (snd c0) e = (t1, None, e1) \<and>
      count_list t1 CloseGate = 1 \<and> ready e1 \<and> readyGate e1 = GateClosed \<and>
      populate_all toLower calls e1 = (t2, None, e2) \<and>
      count_list t2 CloseGate = 0 \<and> ready e2 \<and> readyGate e2 = GateClosed \<and>
      populate_all toLower (c0 # calls) e = (t1 @ t2, None, e2) \<and>
      (\<forall>n d. last (c0 # calls) = (n, d) \<longrightarrow>
         node e2 = Some n \<and> ID e2 = NodeId n \<and> depth e2 = d \<and> nodeType e2 = NodeType n \<and>
         nodeName e2 = toLower (NodeName n) \<and> childNodeCount e2 = ChildNodeCount n \<and>
         (NodeType n = NodeText \<longrightarrow> characterData e2 = NodeValue n) \<and>
         (\<forall>k v. map_of (rev (pairs_of (Attributes n))) k = Some v \<longrightarrow>
            attributes e2 k = Some v))"
proof -
  obtain n0 d0 where c0: "c0 = (n0, d0)" by (cases c0)
  from wf c0 have ev: "even (length (Attributes n0))" by simp
  let ?e1 = "e\<lparr> node := Some n0, ID := NodeId n0, depth := d0, nodeType := NodeType n0,
         nodeName := toLower (NodeName n0), childNodeCount := ChildNodeCount n0,
         characterData := (if NodeType n0 = NodeText then NodeValue n0 else characterData e),
         attributes := attributes e ++ map_of (rev (pairs_of (Attributes n0))),
         readyGate := GateClosed, ready := True \<rparr>"
  let ?t1 = "[Lock, Unlock] @ concat (replicate (length (Attributes n0) div 2) [Lock, Unlock])
        @ [CloseGate, Lock, Unlock]"
  have step: "populateElement toLower n0 d0 e = (?t1, None, ?e1)"
    using populateElement_first [OF ev fresh] .
  have cnt1: "count_list ?t1 CloseGate = 1" by simp
  have r1: "ready ?e1" by simp
  from wf have wf': "\<forall>c \<in> set calls. even (length (Attributes (fst c)))" by simp
  from populate_all_later [OF wf' r1]
  obtain t2 e2 where rest: "populate_all toLower calls ?e1 = (t2, None, e2)"
    and cnt2: "count_list t2 CloseGate = 0" and rdy: "ready e2"
    and gt: "readyGate e2 = readyGate ?e1"
    and fields: "\<forall>n d. calls \<noteq> [] \<and> last calls = (n, d) \<longrightarrow>
              node e2 = Some n \<and> ID e2 = NodeId n \<and> depth e2 = d \<and> nodeType e2 = NodeType n \<and>
              nodeName e2 = toLower (NodeName n) \<and> childNodeCount e2 = ChildNodeCount n \<and>
              (NodeType n = NodeText \<longrightarrow> characterData e2 = NodeValue n) \<and>
              (\<forall>k v. map_of (rev (pairs_of (Attributes n))) k = Some v \<longrightarrow>
                 attributes e2 k = Some v)"
    by blast
  have all: "populate_all toLower (c0 # calls) e = (?t1 @ t2, None, e2)"
    by (simp add: c0 step rest)
  have last_fields: "\<forall>n d. last (c0 # calls) = (n, d) \<longrightarrow>
         node e2 = Some n \<and> ID e2 = NodeId n \<and> depth e2 = d \<and> nodeType e2 = NodeType n \<and>
         nodeName e2 = toLower (NodeName n) \<and> childNodeCount e2 = ChildNodeCount n \<and>
         (NodeType n = NodeText \<longrightarrow> characterData e2 = NodeValue n) \<and>
         (\<forall>k v. map_of (rev (pairs_of (Attributes n))) k = Some v \<longrightarrow>
            attributes e2 k = Some v)"
  proof (cases "calls = []")
    case True
    with rest have "e2 = ?e1" by simp
    then show ?thesis using True c0 by (auto simp: map_add_def)
  next
    case False
    then show ?thesis using fields by simp
  qed
  have g2: "readyGate e2 = GateClosed" using gt by simp
  show ?thesis
    apply (rule exI [of _ ?t1], rule exI [of _ ?e1], rule exI [of _ t2], rule exI [of _ e2])
    using step cnt1 rest cnt2 rdy g2 all last_fields c0 by simp
qed

lemma attribute_loop_keeps_gate:
  "attribute_loop as e = (t, p, e') \<Longrightarrow>
     count_list t CloseGate = 0 \<and> ready e' = ready e \<and> readyGate e' = readyGate e"
proof (induction as e arbitrary: t p e' rule: attribute_loop.induct)
  case (1 e)
  then show ?case by auto
next
  case (2 name e)
  then show ?case by auto
next
  case (3 name v rest e)
  obtain t2 p2 e2 where r: "attribute_loop rest (e\<lparr>attributes := (attributes e)(name \<mapsto> v)\<rparr>) = (t2, p2, e2)"
    by (cases "attribute_loop rest (e\<lparr>attributes := (attributes e)(name \<mapsto> v)\<rparr>)") auto
  from "3.IH" [of "[Lock, Unlock]" "e\<lparr>attributes := (attributes e)(name \<mapsto> v)\<rparr>" t2 p2 e2] r
  have "count_list t2 CloseGate = 0 \<and> ready e2 = ready e \<and> readyGate e2 = readyGate e"
    by (simp add: updateAttribute_def)
  moreover from "3.prems" r have "t = [Lock, Unlock] @ t2" "e' = e2"
    by (simp_all add: updateAttribute_def)
  ultimately show ?case by simp
qed

lemma populateElement_gate:
  assumes "populateElement toLower n d e = (t, p, e')"
  shows "count_list t CloseGate \<le> 1 \<and>
         (ready e \<longrightarrow> ready e' \<and> count_list t CloseGate = 0 \<and> readyGate e' = readyGate e) \<and>
         (p = None \<longrightarrow> ready e')"
proof -
  let ?e1 = "e\<lparr> node := Some n, ID := NodeId n, depth := d, nodeType := NodeType n,
                  nodeName := toLower (NodeName n), childNodeCount := ChildNodeCount n,
                  characterData := (if NodeType n = NodeText then NodeValue n
                                    else characterData e) \<rparr>"
  obtain t2 p2 e2 where r: "attribute_loop (Attributes n) ?e1 = (t2, p2, e2)"
    by (cases "attribute_loop (Attributes n) ?e1") auto
  from attribute_loop_keeps_gate [OF r]
  have k: "count_list t2 CloseGate = 0" "ready e2 = ready e" "readyGate e2 = readyGate e"
    by simp_all
  from assms r k show ?thesis
    by (auto simp: populateElement_def Let_def split: option.splits if_splits gate.splits)
qed

lemma populate_all_gate:
  "populate_all toLower calls e = (t, p, e') \<Longrightarrow>
     count_list t CloseGate \<le> 1 \<and>
     (ready e \<longrightarrow> ready e' \<and> count_list t CloseGate = 0 \<and> readyGate e' = readyGate e)"
proof (induction calls arbitrary: e t p e')
  case Nil
  then show ?case by auto
next
  case (Cons c calls)
  obtain n d where c: "c = (n, d)" by (cases c)
  obtain t1 p1 e1 where s: "populateElement toLower n d e = (t1, p1, e1)"
    by (cases "populateElement toLower n d e") auto
  note g = populateElement_gate [OF s]
  show ?case
  proof (cases p1)
    case (Some pn)
    with Cons.prems c s have "t = t1" "e' = e1" by simp_all
    with g show ?thesis by simp
  next
    case None
    obtain t2 p2 e2 where r: "populate_all toLower calls e1 = (t2, p2, e2)"
      by (cases "populate_all toLower calls e1") auto
    from None g have r1: "ready e1" by simp
    from Cons.IH [OF r] r1
    have ih: "ready e2" "count_list t2 CloseGate = 0" "readyGate e2 = readyGate e1" by simp_all
    from Cons.prems c s None r have "t = t1 @ t2" "e' = e2" by simp_all
    with g ih show ?thesis by simp
  qed
qed

section \<open>Facts about the scan engine\<close>

lemma find_limits_Start_loop:
  "find_limits (fst (Start_loop b turns)) =
     replicate (length (filter (\<lambda>c. c = NothingReady) (takeWhile (\<lambda>c. c \<noteq> ContextDone) turns)))
       (NumBrowsers (cfg b))"
  by (induction b turns rule: Start_loop.induct) (auto split: prod.splits)

lemma Start_loop_pool:
  "Start_loop (b\<lparr>browsers := p\<rparr>) turns = Start_loop b turns"
  by (induction b turns rule: Start_loop.induct) (simp_all split: prod.splits)

section \<open>Claims\<close>

text \<open>
  C1, as stated, fails: it speaks of every sequence of calls, and a node whose attribute
  array has odd length stops the first \<open>populateElement\<close> in the attribute loop, at
  \<open>node.Attributes[i+1]\<close>, before the gate is reached: the Element stays not ready and
  the gate stays open.
\<close>

theorem populate_odd_attributes_counterexample:
  "\<not> ready (newElement 7 0) \<and> readyGate (newElement 7 0) = GateOpen \<and>
   populateElement ToLower_ascii (DOMNode 7 1 ''DIV'' [] 0 None [''id''] [] None) 0 (newElement 7 0) =
     ([Lock, Unlock], Some IndexOutOfRange,
      (newElement 7 0)\<lparr> node := Some (DOMNode 7 1 ''DIV'' [] 0 None [''id''] [] None),
         nodeType := 1, nodeName := ''div'' \<rparr>) \<and>
   \<not> ready ((newElement 7 0)\<lparr> node := Some (DOMNode 7 1 ''DIV'' [] 0 None [''id''] [] None),
         nodeType := 1, nodeName := ''div'' \<rparr>) \<and>
   readyGate ((newElement 7 0)\<lparr> node := Some (DOMNode 7 1 ''DIV'' [] 0 None [''id''] [] None),
         nodeType := 1, nodeName := ''div'' \<rparr>) = GateOpen \<and>
   count_list [Lock, Unlock] CloseGate = 0"
proof -
  have lower: "ToLower_ascii ''DIV'' = ''div''"
    by code_simp
  show ?thesis
    by (simp add: populateElement_def newElement_def NodeText_def lower)
qed

text \<open>
  C1, amended. For nodes whose attribute arrays are the debugger's flat name and value
  pairs, of even length, readiness goes from not ready to ready exactly once: on an
  Element that is not ready and whose gate is open, the first \<open>populateElement\<close> closes
  the ready gate (once) and sets \<open>ready\<close>; every later \<open>populateElement\<close> leaves the gate
  alone, keeps \<open>ready\<close> set, and the Element carries the node, id, depth, node type,
  tag name lowered by \<open>strings.ToLower\<close>, child count, character data (of a text node)
  and attributes of the last call. For every Element and every sequence of calls, a run
  cut short by a panic included, the gate is closed at most once, and on an Element that
  is ready it is not closed at all and \<open>ready\<close> stays set.
\<close>

theorem populate_ready_exactly_once:
  "(\<not> ready e \<and> readyGate e = GateOpen \<and>
    (\<forall>c \<in> set (c0 # calls). even (length (Attributes (fst c)))) \<longrightarrow>
      (\<exists>t1 e1 t2 e2.
         populateElement toLower (fst c0) (snd c0) e = (t1, None, e1) \<and>
         count_list t1 CloseGate = 1 \<and> ready e1 \<and> readyGate e1 = GateClosed \<and>
         populate_all toLower calls e1 = (t2, None, e2) \<and>
         count_list t2 CloseGate = 0 \<and> ready e2 \<and> readyGate e2 = GateClosed \<and>
         populate_all toLower (c0 # calls) e = (t1 @ t2, None, e2) \<and>
         (\<forall>n d. last (c0 # calls) = (n, d) \<longrightarrow>
            node e2 = Some n \<and> ID e2 = NodeId n \<and> depth e2 = d \<and> nodeType e2 = NodeType n \<and>
            nodeName e2 = toLower (NodeName n) \<and> childNodeCount e2 = ChildNodeCount n \<and>
            (NodeType n = NodeText \<longrightarrow> characterData e2 = NodeValue n) \<and>
            (\<forall>k v. map_of (rev (pairs_of (Attributes n))) k = Some v \<longrightarrow>
               attributes e2 k = Some v)))) \<and>
   (populate_all toLower calls e = (t, p, e') \<longrightarrow>
      count_list t CloseGate \<le> 1 \<and>
      (ready e \<longrightarrow> ready e' \<and> count_list t CloseGate = 0 \<and> readyGate e' = readyGate e)) \<and>
   (even (length (Attributes n)) \<and> \<not> ready e \<and> readyGate e = GateOpen \<longrightarrow>
      populateElement toLower n d e =
        ([Lock, Unlock] @ concat (replicate (length (Attributes n) div 2) [Lock, Unlock])
           @ [CloseGate, Lock, Unlock], None,
         e\<lparr> node := Some n, ID := NodeId n, depth := d, nodeType := NodeType n,
            nodeName := toLower (NodeName n), childNodeCount := ChildNodeCount n,
            characterData := (if NodeType n = NodeText then NodeValue n else characterData e),
            attributes := attributes e ++ map_of (rev (pairs_of (Attributes n))),
            readyGate := GateClosed, ready := True \<rparr>)) \<and>
   (even (length (Attributes n)) \<and> ready e \<longrightarrow>
      populateElement toLower n d e =
        ([Lock, Unlock] @ concat (replicate (length (Attributes n) div 2) [Lock, Unlock])
           @ [Lock, Unlock], None,
         e\<lparr> node := Some n, ID := NodeId n, depth := d, nodeType := NodeType n,
            nodeName := toLower (NodeName n), childNodeCount := ChildNodeCount n,
            characterData := (if NodeType n = NodeText then NodeValue n else characterData e),
            attributes := attributes e ++ map_of (rev (pairs_of (Attributes n))) \<rparr>))"
proof (intro conjI impI)
  assume "even (length (Attributes n)) \<and> \<not> ready e \<and> readyGate e = GateOpen"
  then show "populateElement toLower n d e =
        ([Lock, Unlock] @ concat (replicate (length (Attributes n) div 2) [Lock, Unlock])
           @ [CloseGate, Lock, Unlock], None,
         e\<lparr> node := Some n, ID := NodeId n, depth := d, nodeType := NodeType n,
            nodeName := toLower (NodeName n), childNodeCount := ChildNodeCount n,
            characterData := (if NodeType n = NodeText then NodeValue n else characterData e),
            attributes := attributes e ++ map_of (rev (pairs_of (Attributes n))),
            readyGate := GateClosed, ready := True \<rparr>)"
    using populateElement_first [of n e toLower d] by blast
next
  assume "even (length (Attributes n)) \<and> ready e"
  then show "populateElement toLower n d e =
        ([Lock, Unlock] @ concat (replicate (length (Attributes n) div 2) [Lock, Unlock])
           @ [Lock, Unlock], None,
         e\<lparr> node := Some n, ID := NodeId n, depth := d, nodeType := NodeType n,
            nodeName := toLower (NodeName n), childNodeCount := ChildNodeCount n,
            characterData := (if NodeType n = NodeText then NodeValue n else characterData e),
            attributes := attributes e ++ map_of (rev (pairs_of (Attributes n))) \<rparr>)"
    using populateElement_later [of n e toLower d] by blast
next
  assume "\<not> ready e \<and> readyGate e = GateOpen \<and>
    (\<forall>c \<in> set (c0 # calls). even (length (Attributes (fst c))))"
  then show "\<exists>t1 e1 t2 e2.
         populateElement toLower (fst c0) (snd c0) e = (t1, None, e1) \<and>
         count_list t1 CloseGate = 1 \<and> ready e1 \<and> readyGate e1 = GateClosed \<and>
         populate_all toLower calls e1 = (t2, None, e2) \<and>
         count_list t2 CloseGate = 0 \<and> ready e2 \<and> readyGate e2 = GateClosed \<and>
         populate_all toLower (c0 # calls) e = (t1 @ t2, None, e2) \<and>
         (\<forall>n d. last (c0 # calls) = (n, d) \<longrightarrow>
            node e2 = Some n \<and> ID e2 = NodeId n \<and> depth e2 = d \<and> nodeType e2 = NodeType n \<and>
            nodeName e2 = toLower (NodeName n) \<and> childNodeCount e2 = ChildNodeCount n \<and>
            (NodeType n = NodeText \<longrightarrow> characterData e2 = NodeValue n) \<and>
            (\<forall>k v. map_of (rev (pairs_of (Attributes n))) k = Some v \<longrightarrow>
               attributes e2 k = Some v))"
    using populate_sequence_well_formed [where ?c0.0 = c0 and calls = calls and e = e and toLower = toLower]
    by blast
next
  assume r: "populate_all toLower calls e = (t, p, e')"
  show "count_list t CloseGate \<le> 1"
    using populate_all_gate [OF r] by simp
  assume "ready e"
  then show "ready e'" "count_list t CloseGate = 0" "readyGate e' = readyGate e"
    using populate_all_gate [OF r] by simp_all
qed

theorem populate_ready_exactly_once_witness:
  "even (length (Attributes (DOMNode 7 1 ''DIV'' [] 0 None [''id'', ''a''] [] None))) \<and>
   even (length (Attributes (DOMNode 7 3 ''#text'' ''hi'' 0 None [] [] None))) \<and>
   \<not> ready (newElement 7 1) \<and> readyGate (newElement 7 1) = GateOpen \<and>
   (\<exists>t1 e1 t2 e2.
      populateElement ToLower_ascii (DOMNode 7 1 ''DIV'' [] 0 None [''id'', ''a''] [] None) 1 (newElement 7 1)
        = (t1, None, e1) \<and>
      count_list t1 CloseGate = 1 \<and> ready e1 \<and> readyGate e1 = GateClosed \<and>
      populate_all ToLower_ascii [(DOMNode 7 3 ''#text'' ''hi'' 0 None [] [] None, 2)] e1 = (t2, None, e2) \<and>
      count_list t2 CloseGate = 0 \<and> ready e2 \<and> readyGate e2 = GateClosed \<and>
      depth e2 = 2 \<and> characterData e2 = ''hi'') \<and>
   ready ((newElement 7 1)\<lparr>readyGate := GateClosed, ready := True\<rparr>) \<and>
   populate_all ToLower_ascii [(DOMNode 7 3 ''#text'' ''hi'' 0 None [] [] None, 2)]
       ((newElement 7 1)\<lparr>readyGate := GateClosed, ready := True\<rparr>)
     = ([Lock, Unlock, Lock, Unlock], None,
        (newElement 7 1)\<lparr> node := Some (DOMNode 7 3 ''#text'' ''hi'' 0 None [] [] None),
           depth := 2, nodeType := 3, nodeName := ''#text'', characterData := ''hi'',
           readyGate := GateClosed, ready := True \<rparr>) \<and>
   count_list [Lock, Unlock, Lock, Unlock] CloseGate = 0"
proof -
  have fresh: "\<not> ready (newElement 7 1) \<and> readyGate (newElement 7 1) = GateOpen \<and>
      (\<forall>c \<in> set ((DOMNode 7 1 ''DIV'' [] 0 None [''id'', ''a''] [] None, 1) #
                    [(DOMNode 7 3 ''#text'' ''hi'' 0 None [] [] None, 2)]).
         even (length (Attributes (fst c))))"
    by (simp add: newElement_def)
  have first: "\<exists>t1 e1 t2 e2.
      populateElement ToLower_ascii (DOMNode 7 1 ''DIV'' [] 0 None [''id'', ''a''] [] None) 1 (newElement 7 1)
        = (t1, None, e1) \<and>
      count_list t1 CloseGate = 1 \<and> ready e1 \<and> readyGate e1 = GateClosed \<and>
      populate_all ToLower_ascii [(DOMNode 7 3 ''#text'' ''hi'' 0 None [] [] None, 2)] e1 = (t2, None, e2) \<and>
      count_list t2 CloseGate = 0 \<and> ready e2 \<and> readyGate e2 = GateClosed \<and>
      depth e2 = 2 \<and> characterData e2 = ''hi''"
    using populate_ready_exactly_once
      [where e = "newElement 7 1" and toLower = ToLower_ascii
         and ?c0.0 = "(DOMNode 7 1 ''DIV'' [] 0 None [''id'', ''a''] [] None, 1)"
         and calls = "[(DOMNode 7 3 ''#text'' ''hi'' 0 None [] [] None, 2)]",
       THEN conjunct1, THEN mp, OF fresh]
    by (simp add: NodeText_def) blast
  have lower: "ToLower_ascii ''#text'' = ''#text''"
    by code_simp
  have later: "populate_all ToLower_ascii [(DOMNode 7 3 ''#text'' ''hi'' 0 None [] [] None, 2)]
       ((newElement 7 1)\<lparr>readyGate := GateClosed, ready := True\<rparr>)
     = ([Lock, Unlock, Lock, Unlock], None,
        (newElement 7 1)\<lparr> node := Some (DOMNode 7 3 ''#text'' ''hi'' 0 None [] [] None),
           depth := 2, nodeType := 3, nodeName := ''#text'', characterData := ''hi'',
           readyGate := GateClosed, ready := True \<rparr>)"
    by (simp add: populateElement_def newElement_def NodeText_def lower)
  have rdy: "ready ((newElement 7 1)\<lparr>readyGate := GateClosed, ready := True\<rparr>)"
    by simp
  have "count_list [Lock, Unlock, Lock, Unlock] CloseGate = 0"
    using populate_ready_exactly_once [THEN conjunct2, THEN conjunct1, THEN mp, OF later] rdy
    by blast
  with fresh first later rdy show ?thesis
    by simp
qed

text \<open>
  C2. \<open>WaitForReady\<close> on an Element whose \<open>ready\<close> flag is set returns \<open>nil\<close> at once,
  without entering the \<open>select\<close>, whatever would fire; so it does after any
  \<open>populateElement\<close> that returned. Otherwise it blocks in the \<open>select\<close> and returns
  \<open>nil\<close> when the ready gate is released first, and the not-ready error when the tab's
  element timeout or the tab's exit signal comes first.
\<close>

theorem WaitForReady_outcomes:
  "(ready e \<longrightarrow> WaitForReady e fired = ([RLock, RUnlock], Return ()) \<and>
                  is_local (fst (WaitForReady e fired))) \<and>
   (\<not> ready e \<longrightarrow>
      WaitForReady e GateReleased = ([RLock, RUnlock, Select GateReleased], Return ()) \<and>
      WaitForReady e TimeoutElapsed =
        ([RLock, RUnlock, Select TimeoutElapsed], Error ErrElementNotReady) \<and>
      WaitForReady e ExitSignalled =
        ([RLock, RUnlock, Select ExitSignalled], Error ErrElementNotReady)) \<and>
   (populateElement toLower n d e = (t, None, e') \<longrightarrow>
      WaitForReady e' fired = ([RLock, RUnlock], Return ()))"
  using populateElement_sets_ready [of toLower n d e t e']
  by (simp add: WaitForReady_def)

theorem WaitForReady_outcomes_witness:
  "ready ((newElement 7 0)\<lparr>ready := True\<rparr>) \<and>
   WaitForReady ((newElement 7 0)\<lparr>ready := True\<rparr>) TimeoutElapsed = ([RLock, RUnlock], Return ()) \<and>
   \<not> ready (newElement 7 0) \<and>
   WaitForReady (newElement 7 0) GateReleased = ([RLock, RUnlock, Select GateReleased], Return ()) \<and>
   WaitForReady (newElement 7 0) TimeoutElapsed =
     ([RLock, RUnlock, Select TimeoutElapsed], Error ErrElementNotReady) \<and>
   WaitForReady (newElement 7 0) ExitSignalled =
     ([RLock, RUnlock, Select ExitSignalled], Error ErrElementNotReady) \<and>
   populateElement ToLower_ascii (DOMNode 7 1 ''DIV'' [] 0 None [] [] None) 0 (newElement 7 0) =
     ([Lock, Unlock, CloseGate, Lock, Unlock], None,
      (newElement 7 0)\<lparr> node := Some (DOMNode 7 1 ''DIV'' [] 0 None [] [] None),
         nodeType := 1, nodeName := ''div'', readyGate := GateClosed, ready := True \<rparr>) \<and>
   WaitForReady ((newElement 7 0)\<lparr> node := Some (DOMNode 7 1 ''DIV'' [] 0 None [] [] None),
         nodeType := 1, nodeName := ''div'', readyGate := GateClosed, ready := True \<rparr>) ExitSignalled
     = ([RLock, RUnlock], Return ())"
proof -
  have lower: "ToLower_ascii ''DIV'' = ''div''"
    by code_simp
  have p: "populateElement ToLower_ascii (DOMNode 7 1 ''DIV'' [] 0 None [] [] None) 0 (newElement 7 0) =
     ([Lock, Unlock, CloseGate, Lock, Unlock], None,
      (newElement 7 0)\<lparr> node := Some (DOMNode 7 1 ''DIV'' [] 0 None [] [] None),
         nodeType := 1, nodeName := ''div'', readyGate := GateClosed, ready := True \<rparr>)"
    by (simp add: populateElement_def newElement_def NodeText_def lower)
  show ?thesis
    using p
      WaitForReady_outcomes [of "(newElement 7 0)\<lparr>ready := True\<rparr>" TimeoutElapsed]
      WaitForReady_outcomes [where e = "newElement 7 0" and fired = ExitSignalled
        and toLower = ToLower_ascii
        and n = "DOMNode 7 1 ''DIV'' [] 0 None [] [] None" and d = 0
        and t = "[Lock, Unlock, CloseGate, Lock, Unlock]"
        and e' = "(newElement 7 0)\<lparr> node := Some (DOMNode 7 1 ''DIV'' [] 0 None [] [] None),
         nodeType := 1, nodeName := ''div'', readyGate := GateClosed, ready := True \<rparr>"]
    by (simp add: newElement_def)
qed




text \<open>
  C4. The square \<open>[0,0,10,0,10,10,0,10]\<close> has centroid \<open>(5,5)\<close> and no error; a point list
  of odd length is answered with the invalid-dimensions error and no coordinates.
\<close>

theorem centroid_square_and_odd_length:
  "centroid [Finite 0, Finite 0, Finite 10, Finite 0, Finite 10, Finite 10, Finite 0, Finite 10] = Return (5, 5) \<and>
   (odd (length points) \<longrightarrow>
      centroid points = Error (ErrInvalidDimensions ''number of points are not divisible by two''))"
proof
  show "centroid [Finite 0, Finite 0, Finite 10, Finite 0, Finite 10, Finite 10, Finite 0, Finite 10] = Return (5, 5)"
    by (simp add: centroid_def len_def go_mod_def go_div_def
        signed_modulo_int_def signed_divide_int_def)
next
  show "odd (length points) \<longrightarrow>
      centroid points = Error (ErrInvalidDimensions ''number of points are not divisible by two'')"
    by (simp add: centroid_def Let_def go_mod_two_eq_zero_iff even_len_iff)
qed

theorem centroid_square_and_odd_length_witness:
  "odd (length [Finite 1]) \<and>
   centroid [Finite 1] = Error (ErrInvalidDimensions ''number of points are not divisible by two'')"
  using centroid_square_and_odd_length [of "[Finite 1]"] by simp

text \<open>
  C5. On an Element whose node has a child slice, \<open>removeChild\<close> of an identifier that
  some child carries leaves the node with the same children in the same order but for
  the first child carrying the identifier, which is gone, and lowers the child counter
  by one; nothing else of the node or the Element changes. For an identifier that no
  child carries the Element is left as it was.
\<close>

theorem removeChild_first_match:
  assumes "node e = Some n" and "Children n = Some children"
  shows "((\<exists>c \<in> set children. c \<noteq> None \<and> NodeId (the c) = rid) \<longrightarrow>
           (\<exists>idx child n'. idx < length children \<and> children ! idx = Some child \<and>
              NodeId child = rid \<and>
              (\<forall>j<idx. \<forall>c. children ! j = Some c \<longrightarrow> NodeId c \<noteq> rid) \<and>
              removeChild rid e =
                ([Lock, Unlock],
                 e\<lparr> node := Some n', childNodeCount := childNodeCount e - 1 \<rparr>) \<and>
              Children n' = Some (take idx children @ drop (idx + 1) children) \<and>
              NodeId n' = NodeId n \<and> NodeType n' = NodeType n \<and> NodeName n' = NodeName n \<and>
              NodeValue n' = NodeValue n \<and> ChildNodeCount n' = ChildNodeCount n \<and>
              Attributes n' = Attributes n \<and> FrameId n' = FrameId n \<and>
              ContentDocument n' = ContentDocument n \<and>
              length (take idx children @ drop (idx + 1) children) + 1 = length children)) \<and>
         (\<not> (\<exists>c \<in> set children. c \<noteq> None \<and> NodeId (the c) = rid) \<longrightarrow>
            removeChild rid e = ([Lock, Unlock], e))"
proof (intro conjI impI)
  assume "\<exists>c \<in> set children. c \<noteq> None \<and> NodeId (the c) = rid"
  then have "find_child rid children \<noteq> None"
    using find_child_None [of rid children] by simp
  then obtain idx where idx: "find_child rid children = Some idx" by auto
  from find_child_Some [OF idx] obtain child where
    f: "idx < length children" "children ! idx = Some child" "NodeId child = rid"
       "\<forall>j<idx. \<forall>c. children ! j = Some c \<longrightarrow> NodeId c \<noteq> rid"
    by auto
  let ?n' = "set_Children (Some (take idx children @ drop (idx + 1) children)) n"
  have r: "removeChild rid e =
      ([Lock, Unlock], e\<lparr> node := Some ?n', childNodeCount := childNodeCount e - 1 \<rparr>)"
    using assms idx by (simp add: removeChild_def)
  have l: "length (take idx children @ drop (idx + 1) children) + 1 = length children"
    using f(1) by simp
  show "\<exists>idx child n'. idx < length children \<and> children ! idx = Some child \<and>
              NodeId child = rid \<and>
              (\<forall>j<idx. \<forall>c. children ! j = Some c \<longrightarrow> NodeId c \<noteq> rid) \<and>
              removeChild rid e =
                ([Lock, Unlock],
                 e\<lparr> node := Some n', childNodeCount := childNodeCount e - 1 \<rparr>) \<and>
              Children n' = Some (take idx children @ drop (idx + 1) children) \<and>
              NodeId n' = NodeId n \<and> NodeType n' = NodeType n \<and> NodeName n' = NodeName n \<and>
              NodeValue n' = NodeValue n \<and> ChildNodeCount n' = ChildNodeCount n \<and>
              Attributes n' = Attributes n \<and> FrameId n' = FrameId n \<and>
              ContentDocument n' = ContentDocument n \<and>
              length (take idx children @ drop (idx + 1) children) + 1 = length children"
    apply (rule exI [of _ idx], rule exI [of _ child], rule exI [of _ ?n'])
    using f r l by (simp add: set_Children_selectors)
next
  assume "\<not> (\<exists>c \<in> set children. c \<noteq> None \<and> NodeId (the c) = rid)"
  then have "find_child rid children = None"
    using find_child_None [of rid children] by simp
  then show "removeChild rid e = ([Lock, Unlock], e)"
    using assms by (simp add: removeChild_def)
qed

theorem removeChild_first_match_witness:
  "node ((newElement 1 0)\<lparr>node := Some (DOMNode 1 1 ''ul'' [] 3
            (Some [Some (DOMNode 5 1 ''li'' [] 0 None [] [] None), None,
                   Some (DOMNode 6 1 ''li'' [] 0 None [] [] None),
                   Some (DOMNode 5 3 ''#text'' ''x'' 0 None [] [] None)]) [] [] None),
          childNodeCount := 3\<rparr>)
     = Some (DOMNode 1 1 ''ul'' [] 3
            (Some [Some (DOMNode 5 1 ''li'' [] 0 None [] [] None), None,
                   Some (DOMNode 6 1 ''li'' [] 0 None [] [] None),
                   Some (DOMNode 5 3 ''#text'' ''x'' 0 None [] [] None)]) [] [] None) \<and>
   (\<exists>c \<in> set [Some (DOMNode 5 1 ''li'' [] 0 None [] [] None), None,
                Some (DOMNode 6 1 ''li'' [] 0 None [] [] None),
                Some (DOMNode 5 3 ''#text'' ''x'' 0 None [] [] None)].
      c \<noteq> None \<and> NodeId (the c) = 5) \<and>
   \<not> (\<exists>c \<in> set [Some (DOMNode 5 1 ''li'' [] 0 None [] [] None), None,
                  Some (DOMNode 6 1 ''li'' [] 0 None [] [] None),
                  Some (DOMNode 5 3 ''#text'' ''x'' 0 None [] [] None)].
        c \<noteq> None \<and> NodeId (the c) = 9) \<and>
   removeChild 5 ((newElement 1 0)\<lparr>node := Some (DOMNode 1 1 ''ul'' [] 3
            (Some [Some (DOMNode 5 1 ''li'' [] 0 None [] [] None), None,
                   Some (DOMNode 6 1 ''li'' [] 0 None [] [] None),
                   Some (DOMNode 5 3 ''#text'' ''x'' 0 None [] [] None)]) [] [] None),
          childNodeCount := 3\<rparr>)
     = ([Lock, Unlock],
        (newElement 1 0)\<lparr>node := Some (DOMNode 1 1 ''ul'' [] 3
            (Some [None,
                   Some (DOMNode 6 1 ''li'' [] 0 None [] [] None),
                   Some (DOMNode 5 3 ''#text'' ''x'' 0 None [] [] None)]) [] [] None),
          childNodeCount := 2\<rparr>) \<and>
   removeChild 9 ((newElement 1 0)\<lparr>node := Some (DOMNode 1 1 ''ul'' [] 3
            (Some [Some (DOMNode 5 1 ''li'' [] 0 None [] [] None), None,
                   Some (DOMNode 6 1 ''li'' [] 0 None [] [] None),
                   Some (DOMNode 5 3 ''#text'' ''x'' 0 None [] [] None)]) [] [] None),
          childNodeCount := 3\<rparr>)
     = ([Lock, Unlock],
        (newElement 1 0)\<lparr>node := Some (DOMNode 1 1 ''ul'' [] 3
            (Some [Some (DOMNode 5 1 ''li'' [] 0 None [] [] None), None,
                   Some (DOMNode 6 1 ''li'' [] 0 None [] [] None),
                   Some (DOMNode 5 3 ''#text'' ''x'' 0 None [] [] None)]) [] [] None),
          childNodeCount := 3\<rparr>)"
proof -
  let ?cs = "[Some (DOMNode 5 1 ''li'' [] 0 None [] [] None), None,
              Some (DOMNode 6 1 ''li'' [] 0 None [] [] None),
              Some (DOMNode 5 3 ''#text'' ''x'' 0 None [] [] None)]"
  let ?n = "DOMNode 1 1 ''ul'' [] 3 (Some ?cs) [] [] None"
  let ?e = "(newElement 1 0)\<lparr>node := Some ?n, childNodeCount := 3\<rparr>"
  have nd: "node ?e = Some ?n" by simp
  have ch: "Children ?n = Some ?cs" by simp
  have present: "\<exists>c \<in> set ?cs. c \<noteq> None \<and> NodeId (the c) = 5" by simp
  have absent: "\<not> (\<exists>c \<in> set ?cs. c \<noteq> None \<and> NodeId (the c) = 9)" by simp
  from removeChild_first_match [OF nd ch, of 5, THEN conjunct1, THEN mp, OF present]
  obtain idx child n' where
    i: "idx < length ?cs" "?cs ! idx = Some child" "NodeId child = 5"
       "\<forall>j<idx. \<forall>c. ?cs ! j = Some c \<longrightarrow> NodeId c \<noteq> 5"
    and r: "removeChild 5 ?e =
       ([Lock, Unlock], ?e\<lparr> node := Some n', childNodeCount := childNodeCount ?e - 1 \<rparr>)"
    and c: "Children n' = Some (take idx ?cs @ drop (idx + 1) ?cs)"
    and s: "NodeId n' = NodeId ?n" "NodeType n' = NodeType ?n" "NodeName n' = NodeName ?n"
       "NodeValue n' = NodeValue ?n" "ChildNodeCount n' = ChildNodeCount ?n"
       "Attributes n' = Attributes ?n" "FrameId n' = FrameId ?n"
       "ContentDocument n' = ContentDocument ?n"
    by blast
  have "idx = 0"
  proof (rule ccontr)
    assume "idx \<noteq> 0"
    then have "0 < idx" by simp
    with i(4) have "NodeId (DOMNode 5 1 ''li'' [] 0 None [] [] None) \<noteq> 5" by auto
    then show False by simp
  qed
  with c have c0: "Children n' = Some [None, Some (DOMNode 6 1 ''li'' [] 0 None [] [] None),
      Some (DOMNode 5 3 ''#text'' ''x'' 0 None [] [] None)]"
    by simp
  have n': "n' = DOMNode 1 1 ''ul'' [] 3
            (Some [None, Some (DOMNode 6 1 ''li'' [] 0 None [] [] None),
                   Some (DOMNode 5 3 ''#text'' ''x'' 0 None [] [] None)]) [] [] None"
    using c0 s by (cases n') simp
  have first: "removeChild 5 ?e = ([Lock, Unlock],
        (newElement 1 0)\<lparr>node := Some (DOMNode 1 1 ''ul'' [] 3
            (Some [None,
                   Some (DOMNode 6 1 ''li'' [] 0 None [] [] None),
                   Some (DOMNode 5 3 ''#text'' ''x'' 0 None [] [] None)]) [] [] None),
          childNodeCount := 2\<rparr>)"
    using r n' by (simp add: newElement_def)
  have second: "removeChild 9 ?e = ([Lock, Unlock], ?e)"
    using removeChild_first_match [OF nd ch, of 9, THEN conjunct2, THEN mp, OF absent] .
  from nd present absent first second show ?thesis
    by simp
qed

text \<open>
  C6, as stated, fails: with three browsers configured and one lease idle, the turn of
  \<open>Start\<close> that reaches \<open>default\<close> asks \<open>Find\<close> for three navigations.
\<close>

theorem find_limit_counterexample:
  "Start \<lparr> cfg = \<lparr> URL = ''http://localhost/'', DataPath = [], NumBrowsers = 3 \<rparr>,
           browsers = Some \<lparr> maxBrowsers = 3, leased = 2, released = False \<rparr>,
           scanContext = Some \<lparr> Done = False \<rparr>, stateMonitor = True \<rparr> [NothingReady]
     = ([Find NavUnvisited NavInProcess 3], None) \<and>
   idle_leases \<lparr> maxBrowsers = 3, leased = 2, released = False \<rparr> = 1 \<and>
   (3 :: go_int) \<noteq> 1"
  by (simp add: Start_def idle_leases_def)

text \<open>
  C6, amended. Every \<open>Find\<close> that \<open>Start\<close> issues, one for each turn that reaches
  \<open>default\<close> before the context is done, moves navigations from unvisited to in-process
  with the limit \<open>cfg.NumBrowsers\<close>, the configured number of browsers; the state of the
  pool has no part in it.
\<close>

theorem find_limit_is_NumBrowsers:
  "find_limits (fst (Start b turns)) =
     (if scanContext b = None \<or> \<not> stateMonitor b then []
      else replicate
             (length (filter (\<lambda>c. c = NothingReady) (takeWhile (\<lambda>c. c \<noteq> ContextDone) turns)))
             (NumBrowsers (cfg b))) \<and>
   Start (b\<lparr>browsers := p\<rparr>) turns = Start b turns \<and>
   fst (Start_loop b (NothingReady # turns)) =
     Find NavUnvisited NavInProcess (NumBrowsers (cfg b)) # fst (Start_loop b turns)"
  by (simp add: Start_def find_limits_Start_loop Start_loop_pool split: prod.splits)

text \<open>
  C7. \<open>Stop\<close> is to cancel the scan, wait for the navigations in flight and release the
  pool. On the engine that \<open>Init\<close> has set up with three browsers, \<open>Stop\<close> returns \<open>nil\<close>
  and leaves the engine as it was: the context is not done and the pool is not
  released. In every state, initialised or not, \<open>Stop\<close> returns \<open>nil\<close> and changes
  nothing, the first time and the second.
\<close>

theorem Stop_does_nothing:
  "Init (New \<lparr> URL = ''http://localhost/'', DataPath = [], NumBrowsers = 3 \<rparr>)
        \<lparr> Done = False \<rparr> None None None
     = (None, \<lparr> cfg = \<lparr> URL = ''http://localhost/'', DataPath = [], NumBrowsers = 3 \<rparr>,
                browsers = Some \<lparr> maxBrowsers = 3, leased = 0, released = False \<rparr>,
                scanContext = Some \<lparr> Done = False \<rparr>, stateMonitor = True \<rparr>) \<and>
   Stop \<lparr> cfg = \<lparr> URL = ''http://localhost/'', DataPath = [], NumBrowsers = 3 \<rparr>,
          browsers = Some \<lparr> maxBrowsers = 3, leased = 0, released = False \<rparr>,
          scanContext = Some \<lparr> Done = False \<rparr>, stateMonitor = True \<rparr>
     = (None, \<lparr> cfg = \<lparr> URL = ''http://localhost/'', DataPath = [], NumBrowsers = 3 \<rparr>,
                browsers = Some \<lparr> maxBrowsers = 3, leased = 0, released = False \<rparr>,
                scanContext = Some \<lparr> Done = False \<rparr>, stateMonitor = True \<rparr>) \<and>
   Stop b = (None, b) \<and>
   Stop (snd (Stop b)) = (None, b)"
  by (simp add: Init_def New_def Stop_def)

text \<open>
  C8, as stated, fails: \<open>Dimensions\<close> sends the box model command between taking and
  releasing the read lock, and \<open>SetAttributeValue\<close> sends its command and stores the
  attribute while it holds the write lock.
\<close>

theorem lock_scope_counterexample:
  "Dimensions (newElement 7 0) (Inr [Finite 0, Finite 0, Finite 10, Finite 0, Finite 10, Finite 10, Finite 0, Finite 10]) =
     ([RLock, Remote (DOM_GetBoxModel 7), RUnlock], Return [Finite 0, Finite 0, Finite 10, Finite 0, Finite 10, Finite 10, Finite 0, Finite 10]) \<and>
   \<not> remote_outside_lock 0 [RLock, Remote (DOM_GetBoxModel 7), RUnlock] \<and>
   SetAttributeValue (newElement 7 0) ''value'' ''x'' (Inr ()) =
     ([Lock, Remote (DOM_SetAttributeValue 7 ''value'' ''x''), Unlock], Return (),
      (newElement 7 0)\<lparr>attributes := [''value'' \<mapsto> ''x'']\<rparr>) \<and>
   \<not> remote_outside_lock 0 [Lock, Remote (DOM_SetAttributeValue 7 ''value'' ''x''), Unlock]"
  by (simp add: Dimensions_def SetAttributeValue_def newElement_def)

text \<open>
  C8, amended. \<open>GetSource\<close> and \<open>GetEventListeners\<close> copy the node id under a short read
  lock and send their commands after releasing it. \<open>Dimensions\<close>, \<open>Focus\<close>, \<open>ScrollTo\<close>,
  \<open>GetAttributes\<close> and the two style queries send their command while they hold the
  read lock, and \<open>SetAttributeValue\<close> while it holds the write lock.
\<close>

theorem lock_scopes:
  "remote_outside_lock 0 (fst (GetSource e outerHTML)) \<and>
   remote_outside_lock 0 (fst (GetEventListeners e resolved listeners)) \<and>
   \<not> remote_outside_lock 0 (fst (Dimensions e box)) \<and>
   \<not> remote_outside_lock 0 (fst (SetAttributeValue e name v reply)) \<and>
   \<not> remote_outside_lock 0 (fst (Focus e reply)) \<and>
   \<not> remote_outside_lock 0 (fst (ScrollTo e reply)) \<and>
   \<not> remote_outside_lock 0 (fst (GetAttributes e fetched)) \<and>
   \<not> remote_outside_lock 0 (fst (GetCSSInlineStyleText e inline)) \<and>
   \<not> remote_outside_lock 0 (fst (GetComputedCSSStyle e computed)) \<and>
   fst (Dimensions e box) = [RLock, Remote (DOM_GetBoxModel (ID e)), RUnlock] \<and>
   fst (SetAttributeValue e name v reply) =
     [Lock, Remote (DOM_SetAttributeValue (ID e) name v), Unlock] \<and>
   fst (Focus e reply) = [RLock, Remote (DOM_Focus (ID e)), RUnlock] \<and>
   fst (ScrollTo e reply) = [RLock, Remote (DOM_ScrollIntoViewIfNeeded (ID e)), RUnlock]"
  by (auto simp: GetSource_def GetEventListeners_def Dimensions_def SetAttributeValue_def
      Focus_def ScrollTo_def GetAttributes_def GetCSSInlineStyleText_def GetComputedCSSStyle_def
      split: sum.splits prod.splits option.splits)

text \<open>
  C9. The divisor \<open>pointLen / 2\<close> of the averaging division is to be non-zero for every
  list that passes the odd-length guard, the empty list included. The empty list passes
  the guard with \<open>pointLen = 0\<close>, the divisor is \<open>0\<close>, and the division panics; so does
  \<open>getCenter\<close> when the box model comes back with no content points.
\<close>

theorem centroid_empty_divides_by_zero:
  "go_mod (len ([] :: float64 list)) 2 = 0 \<and>
   go_div (len ([] :: float64 list)) 2 = 0 \<and>
   centroid [] = Panic DivideByZero \<and>
   getCenter e (Inr []) = ([RLock, Remote (DOM_GetBoxModel (ID e)), RUnlock], Panic DivideByZero)"
  by (simp add: getCenter_def Dimensions_def centroid_def len_def go_mod_def go_div_def
      signed_modulo_int_def signed_divide_int_def)

text \<open>
  C10, as stated, fails in the case of an absent attribute: a name that the fetched
  reply does not carry but the Element's map still holds is answered with the held
  value, and a reply of odd length stops \<open>GetAttributes\<close> in its loop with a panic.
\<close>

theorem attribute_absent_counterexample:
  "GetAttribute ((newElement 7 0)\<lparr>attributes := [''class'' \<mapsto> ''old'']\<rparr>) ''class''
       (Inr [''id'', ''a'']) =
     ([RLock, Remote (DOM_GetAttributes 7), RUnlock, Lock, Unlock], Return ''old'',
      (newElement 7 0)\<lparr>attributes := [''class'' \<mapsto> ''old'', ''id'' \<mapsto> ''a'']\<rparr>) \<and>
   GetAttribute (newElement 7 0) ''class'' (Inr [''id'']) =
     ([RLock, Remote (DOM_GetAttributes 7), RUnlock], Panic IndexOutOfRange, newElement 7 0)"
  by (simp add: GetAttribute_def GetAttributes_def updateAttribute_def newElement_def)

text \<open>
  C10, amended. When the attribute fetch fails, \<open>GetAttribute\<close> returns the empty string
  and \<open>HasAttribute\<close> returns false, and neither of them ever returns an error. When the
  fetch succeeds with a reply of even length, the fetched pairs are stored into the
  Element's attribute map; \<open>GetAttribute\<close> returns what the map then holds for the name,
  the empty string if nothing, and \<open>HasAttribute\<close> whether it holds anything. So for a
  name that is neither in the reply nor in the map \<open>GetAttribute\<close> returns the empty
  string and \<open>HasAttribute\<close> false.
\<close>

theorem attribute_lookups_swallow_errors:
  "GetAttribute e name (Inl err) =
     ([RLock, Remote (DOM_GetAttributes (ID e)), RUnlock], Return [], e) \<and>
   HasAttribute e name (Inl err) =
     ([RLock, Remote (DOM_GetAttributes (ID e)), RUnlock], Return False, e) \<and>
   fst (snd (GetAttribute e name fetched)) \<noteq> Error err' \<and>
   fst (snd (HasAttribute e name fetched)) \<noteq> Error err' \<and>
   (even (length attr) \<longrightarrow>
      GetAttribute e name (Inr attr) =
        ([RLock, Remote (DOM_GetAttributes (ID e)), RUnlock] @
           concat (replicate (length attr div 2) [Lock, Unlock]),
         Return (case (attributes e ++ map_of (rev (pairs_of attr))) name of
                   None \<Rightarrow> [] | Some v \<Rightarrow> v),
         e\<lparr>attributes := attributes e ++ map_of (rev (pairs_of attr))\<rparr>) \<and>
      HasAttribute e name (Inr attr) =
        ([RLock, Remote (DOM_GetAttributes (ID e)), RUnlock] @
           concat (replicate (length attr div 2) [Lock, Unlock]),
         Return ((attributes e ++ map_of (rev (pairs_of attr))) name \<noteq> None),
         e\<lparr>attributes := attributes e ++ map_of (rev (pairs_of attr))\<rparr>)) \<and>
   (even (length attr) \<and> attributes e name = None \<and> name \<notin> fst ` set (pairs_of attr) \<longrightarrow>
      fst (snd (GetAttribute e name (Inr attr))) = Return [] \<and>
      fst (snd (HasAttribute e name (Inr attr))) = Return False)"
proof (intro conjI impI)
  show "GetAttribute e name (Inl err) =
     ([RLock, Remote (DOM_GetAttributes (ID e)), RUnlock], Return [], e)"
    by (simp add: GetAttribute_def GetAttributes_def)
  show "HasAttribute e name (Inl err) =
     ([RLock, Remote (DOM_GetAttributes (ID e)), RUnlock], Return False, e)"
    by (simp add: HasAttribute_def GetAttributes_def)
  show "fst (snd (GetAttribute e name fetched)) \<noteq> Error err'"
    by (auto simp: GetAttribute_def split: prod.splits result.splits)
  show "fst (snd (HasAttribute e name fetched)) \<noteq> Error err'"
    by (auto simp: HasAttribute_def split: prod.splits result.splits)
next
  assume ev: "even (length attr)"
  show "GetAttribute e name (Inr attr) =
        ([RLock, Remote (DOM_GetAttributes (ID e)), RUnlock] @
           concat (replicate (length attr div 2) [Lock, Unlock]),
         Return (case (attributes e ++ map_of (rev (pairs_of attr))) name of
                   None \<Rightarrow> [] | Some v \<Rightarrow> v),
         e\<lparr>attributes := attributes e ++ map_of (rev (pairs_of attr))\<rparr>)"
    using ev by (simp add: GetAttribute_def GetAttributes_def attribute_loop_even)
  show "HasAttribute e name (Inr attr) =
        ([RLock, Remote (DOM_GetAttributes (ID e)), RUnlock] @
           concat (replicate (length attr div 2) [Lock, Unlock]),
         Return ((attributes e ++ map_of (rev (pairs_of attr))) name \<noteq> None),
         e\<lparr>attributes := attributes e ++ map_of (rev (pairs_of attr))\<rparr>)"
    using ev by (simp add: HasAttribute_def GetAttributes_def attribute_loop_even)
next
  assume a: "even (length attr) \<and> attributes e name = None \<and> name \<notin> fst ` set (pairs_of attr)"
  then have none: "(attributes e ++ map_of (rev (pairs_of attr))) name = None"
    by (simp add: map_add_def map_of_eq_None_iff [THEN iffD2] split: option.splits)
  have loop: "attribute_loop attr e =
      (concat (replicate (length attr div 2) [Lock, Unlock]), None,
       e\<lparr>attributes := attributes e ++ map_of (rev (pairs_of attr))\<rparr>)"
    using a attribute_loop_even by blast
  show "fst (snd (GetAttribute e name (Inr attr))) = Return []"
    unfolding GetAttribute_def GetAttributes_def by (simp add: loop none)
  show "fst (snd (HasAttribute e name (Inr attr))) = Return False"
    unfolding HasAttribute_def GetAttributes_def by (simp add: loop none)
qed

theorem attribute_lookups_swallow_errors_witness:
  "even (length [''id'', ''a'']) \<and> attributes (newElement 7 0) ''class'' = None \<and>
   ''class'' \<notin> fst ` set (pairs_of [''id'', ''a'']) \<and>
   GetAttribute (newElement 7 0) ''class'' (Inr [''id'', ''a'']) =
     ([RLock, Remote (DOM_GetAttributes 7), RUnlock, Lock, Unlock], Return [],
      (newElement 7 0)\<lparr>attributes := [''id'' \<mapsto> ''a'']\<rparr>) \<and>
   GetAttribute (newElement 7 0) ''id'' (Inr [''id'', ''a'']) =
     ([RLock, Remote (DOM_GetAttributes 7), RUnlock, Lock, Unlock], Return ''a'',
      (newElement 7 0)\<lparr>attributes := [''id'' \<mapsto> ''a'']\<rparr>) \<and>
   HasAttribute (newElement 7 0) ''id'' (Inr [''id'', ''a'']) =
     ([RLock, Remote (DOM_GetAttributes 7), RUnlock, Lock, Unlock], Return True,
      (newElement 7 0)\<lparr>attributes := [''id'' \<mapsto> ''a'']\<rparr>) \<and>
   fst (snd (HasAttribute (newElement 7 0) ''class'' (Inr [''id'', ''a'']))) = Return False"
proof -
  have ev: "even (length [''id'', ''a''])"
    by simp
  have ab: "even (length [''id'', ''a'']) \<and> attributes (newElement 7 0) ''class'' = None \<and>
      ''class'' \<notin> fst ` set (pairs_of [''id'', ''a''])"
    by (simp add: newElement_def)
  have m: "attributes (newElement 7 0) ++ map_of (rev (pairs_of [''id'', ''a''])) = [''id'' \<mapsto> ''a'']"
    by (simp add: newElement_def)
  note full_class = attribute_lookups_swallow_errors
    [where e = "newElement 7 0" and attr = "[''id'', ''a'']" and name = "''class''",
      THEN conjunct2, THEN conjunct2, THEN conjunct2, THEN conjunct2, THEN conjunct1,
      THEN mp, OF ev]
  note full_id = attribute_lookups_swallow_errors
    [where e = "newElement 7 0" and attr = "[''id'', ''a'']" and name = "''id''",
      THEN conjunct2, THEN conjunct2, THEN conjunct2, THEN conjunct2, THEN conjunct1,
      THEN mp, OF ev]
  note gone = attribute_lookups_swallow_errors
    [where e = "newElement 7 0" and attr = "[''id'', ''a'']" and name = "''class''",
      THEN conjunct2, THEN conjunct2, THEN conjunct2, THEN conjunct2, THEN conjunct2,
      THEN mp, OF ab]
  have id7: "ID (newElement 7 0) = 7"
    by (simp add: newElement_def)
  from full_class full_id gone ab m id7
  show ?thesis
    by (simp add: newElement_def)
qed

end
